theory Spec2Isabelle
  imports Main
begin

section \<open>Strings as the source uses them\<close>

text \<open>
  Python strings are modelled as \<^typ>\<open>string\<close>.  \<open>py_split sep s\<close> is
  \<^verbatim>\<open>s.split(sep)\<close> for a one-character separator: every occurrence of the
  separator cuts, so leading, trailing and doubled separators give empty fields and
  the empty string gives the one-element list holding the empty string.
  \<open>py_join sep xs\<close> is \<^verbatim>\<open>sep.join(xs)\<close>.
\<close>

fun py_split :: "char \<Rightarrow> string \<Rightarrow> string list" where
  "py_split sep [] = [[]]"
| "py_split sep (c # cs) =
     (if c = sep then [] # py_split sep cs
      else (case py_split sep cs of
              [] \<Rightarrow> [[c]]
            | w # ws \<Rightarrow> (c # w) # ws))"

fun py_join :: "string \<Rightarrow> string list \<Rightarrow> string" where
  "py_join sep [] = []"
| "py_join sep [x] = x"
| "py_join sep (x # y # ys) = x @ sep @ py_join sep (y # ys)"

definition space :: char where
  "space = CHR '' ''"

definition newline :: char where
  "newline = CHR 0x0A"

section \<open>The measuring interface of the drawing surface\<close>

text \<open>
  \<^verbatim>\<open>draw.textbbox((0, 0), s, font=font)\<close> belongs to the imaging library, not to the
  repository.  It is a parameter of the model: a function from a font and a string to
  the box \<open>(x0, y0, x1, y1)\<close> (left, upper, right, lower), with integer coordinates.
  The source only ever reads \<^verbatim>\<open>bbox[2] - bbox[0]\<close>.  The box of a string does not
  depend on what is painted on the surface, so the function stands for the drawing
  context wherever the source passes \<^verbatim>\<open>draw\<close> for measuring.
\<close>

type_synonym bbox = "int \<times> int \<times> int \<times> int"

definition bbox_width :: "bbox \<Rightarrow> int" where
  "bbox_width b = (case b of (x0, y0, x1, y1) \<Rightarrow> x1 - x0)"

section \<open>\<open>wrap_text\<close>\<close>

text \<open>
  \<^verbatim>\<open>wrap_text(text, font, max_width, draw)\<close>; the measuring function of \<^verbatim>\<open>draw\<close> is
  the first argument of the model.  First the body of the \<^verbatim>\<open>for word in words\<close> loop,
  on the pair \<open>(lines, current_line)\<close>.  A Python string is truthy iff it is not empty.
\<close>

definition wrap_step ::
  "('f \<Rightarrow> string \<Rightarrow> bbox) \<Rightarrow> 'f \<Rightarrow> int \<Rightarrow> string \<Rightarrow> string list \<times> string \<Rightarrow> string list \<times> string"
where
  "wrap_step textbbox font max_width word st =
     (case st of (lines, current_line) \<Rightarrow>
        let test_line = current_line @ (if current_line \<noteq> [] then [space] else []) @ word;
            bbox = textbbox font test_line;
            text_width = bbox_width bbox
        in if text_width \<le> max_width then (lines, test_line)
           else if current_line \<noteq> [] then (lines @ [current_line], word)
           else (lines @ [word], current_line))"

fun wrap_loop ::
  "('f \<Rightarrow> string \<Rightarrow> bbox) \<Rightarrow> 'f \<Rightarrow> int \<Rightarrow> string list \<Rightarrow> string list \<times> string \<Rightarrow> string list \<times> string"
where
  "wrap_loop textbbox font max_width [] st = st"
| "wrap_loop textbbox font max_width (word # words) st =
     wrap_loop textbbox font max_width words (wrap_step textbbox font max_width word st)"

text \<open>The list \<^verbatim>\<open>lines\<close> as it stands when \<^verbatim>\<open>wrap_text\<close> reaches its return.\<close>

definition wrap_lines :: "('f \<Rightarrow> string \<Rightarrow> bbox) \<Rightarrow> string \<Rightarrow> 'f \<Rightarrow> int \<Rightarrow> string list" where
  "wrap_lines textbbox text font max_width =
     (let words = py_split space text in
      case wrap_loop textbbox font max_width words ([], []) of
        (lines, current_line) \<Rightarrow>
          if current_line \<noteq> [] then lines @ [current_line] else lines)"

definition wrap_text :: "('f \<Rightarrow> string \<Rightarrow> bbox) \<Rightarrow> string \<Rightarrow> 'f \<Rightarrow> int \<Rightarrow> string" where
  "wrap_text textbbox text font max_width =
     py_join [newline] (wrap_lines textbbox text font max_width)"

text \<open>
  The words of a string: its maximal runs of characters other than the space, that is
  the non-empty fields of \<^verbatim>\<open>s.split(' ')\<close>.
\<close>

definition words_of :: "string \<Rightarrow> string list" where
  "words_of s = filter (\<lambda>w. w \<noteq> []) (py_split space s)"

section \<open>Images, the store and the imaging library\<close>

text \<open>
  The pixel arithmetic of the imaging library is not part of the repository, so a
  raster is kept symbolic: it records which library operations produced it, in order.
  Two equal rasters are the same pixels whatever the library computes.
\<close>

record 'f text_cmd =
  cmd_xy :: "int \<times> int"
  cmd_text :: string
  cmd_font :: 'f
  cmd_fill :: string
  cmd_stroke_width :: int
  cmd_stroke_fill :: string

datatype ('p, 'f) raster =
    Pixels 'p
  | Solid string "int \<times> int" "int \<times> int \<times> int \<times> int"
  | Converted string "('p, 'f) raster"
  | Composited "('p, 'f) raster" "('p, 'f) raster"
  | Stroked "('p, 'f) raster" "'f text_cmd"

record ('p, 'f) image =
  im_mode :: string
  im_size :: "int \<times> int"
  im_raster :: "('p, 'f) raster"

text \<open>
  Python images are mutable objects that variables refer to.  The store is the list of
  all images alive; a reference is an index into it.  A new image goes to the end of
  the list, so no earlier reference changes its meaning.  A number that is no index of
  the store refers to no image; Python has no such reference, and the model answers it
  with the error \<open>NoSuchImage\<close>.
\<close>

type_synonym ('p, 'f) heap = "('p, 'f) image list"

datatype error =
    ValueError string
  | KeyError string
  | NoSuchImage

definition and_then :: "error + 'a \<Rightarrow> ('a \<Rightarrow> error + 'b) \<Rightarrow> error + 'b" where
  "and_then m f = (case m of Inl e \<Rightarrow> Inl e | Inr x \<Rightarrow> f x)"

definition lookup :: "('p, 'f) heap \<Rightarrow> nat \<Rightarrow> error + ('p, 'f) image" where
  "lookup h a = (if a < length h then Inr (h ! a) else Inl NoSuchImage)"

definition alloc :: "('p, 'f) heap \<Rightarrow> ('p, 'f) image \<Rightarrow> nat \<times> ('p, 'f) heap" where
  "alloc h v = (length h, h @ [v])"

text \<open>\<^verbatim>\<open>im.size\<close>\<close>

definition image_size :: "('p, 'f) heap \<Rightarrow> nat \<Rightarrow> error + (int \<times> int)" where
  "image_size h a = and_then (lookup h a) (\<lambda>v. Inr (im_size v))"

text \<open>\<^verbatim>\<open>im.copy()\<close>: a new image with the same contents.\<close>

definition image_copy :: "('p, 'f) heap \<Rightarrow> nat \<Rightarrow> error + (nat \<times> ('p, 'f) heap)" where
  "image_copy h a = and_then (lookup h a) (\<lambda>v. Inr (alloc h v))"

text \<open>\<^verbatim>\<open>Image.new(mode, size, color)\<close>: a new image filled with one colour.\<close>

definition image_new ::
  "('p, 'f) heap \<Rightarrow> string \<Rightarrow> int \<times> int \<Rightarrow> int \<times> int \<times> int \<times> int \<Rightarrow> nat \<times> ('p, 'f) heap" where
  "image_new h mode sz color =
     alloc h \<lparr>im_mode = mode, im_size = sz, im_raster = Solid mode sz color\<rparr>"

text \<open>\<^verbatim>\<open>im.convert(mode)\<close>: a converted copy; the image itself stays as it is.\<close>

definition image_convert ::
  "('p, 'f) heap \<Rightarrow> nat \<Rightarrow> string \<Rightarrow> error + (nat \<times> ('p, 'f) heap)" where
  "image_convert h a mode =
     and_then (lookup h a) (\<lambda>v.
       Inr (alloc h (v\<lparr>im_mode := mode, im_raster := Converted mode (im_raster v)\<rparr>)))"

text \<open>
  \<^verbatim>\<open>Image.alpha_composite(im1, im2)\<close>: a new image; the library raises
  \<^verbatim>\<open>ValueError\<close> unless both images are RGBA and of one size.
\<close>

definition alpha_composite ::
  "('p, 'f) heap \<Rightarrow> nat \<Rightarrow> nat \<Rightarrow> error + (nat \<times> ('p, 'f) heap)" where
  "alpha_composite h a b =
     and_then (lookup h a) (\<lambda>va.
     and_then (lookup h b) (\<lambda>vb.
       if im_mode va \<noteq> ''RGBA'' \<or> im_mode vb \<noteq> ''RGBA'' \<or> im_size va \<noteq> im_size vb
       then Inl (ValueError ''images do not match'')
       else Inr (alloc h \<lparr>im_mode = ''RGBA'', im_size = im_size va,
                          im_raster = Composited (im_raster va) (im_raster vb)\<rparr>)))"

text \<open>
  \<^verbatim>\<open>ImageDraw.Draw(im)\<close> gives a drawing context bound to \<^verbatim>\<open>im\<close>; the model uses the
  reference of the image for it.  \<^verbatim>\<open>draw.text(...)\<close> paints into that image in place.
\<close>

definition draw_text ::
  "('p, 'f) heap \<Rightarrow> nat \<Rightarrow> 'f text_cmd \<Rightarrow> error + ('p, 'f) heap" where
  "draw_text h draw cmd =
     and_then (lookup h draw) (\<lambda>v.
       Inr (h[draw := v\<lparr>im_raster := Stroked (im_raster v) cmd\<rparr>]))"

text \<open>
  The font side of the library: \<^verbatim>\<open>ImageFont.truetype(path, size)\<close>, which raises when
  the font file cannot be read (\<open>None\<close>), \<^verbatim>\<open>ImageFont.load_default()\<close>, and the
  measuring function \<^verbatim>\<open>draw.textbbox((0, 0), s, font=f)\<close>.
\<close>

record 'f pil =
  pil_truetype :: "string \<Rightarrow> int \<Rightarrow> 'f option"
  pil_load_default :: 'f
  pil_textbbox :: "'f \<Rightarrow> string \<Rightarrow> bbox"

section \<open>\<open>add_text_overlay\<close>\<close>

record slide =
  slide_title :: string
  slide_subtitle :: string
  slide_visual_theme :: string

text \<open>\<^verbatim>\<open>f"{slide_number}"\<close>: the decimal digits of a Python integer.\<close>

definition digit :: "nat \<Rightarrow> char" where
  "digit d = ''0123456789'' ! d"

fun nat_digits :: "nat \<Rightarrow> string" where
  "nat_digits n =
     (if n < 10 then [digit n] else nat_digits (n div 10) @ [digit (n mod 10)])"

declare nat_digits.simps [simp del]

definition py_str :: "int \<Rightarrow> string" where
  "py_str i = (if i < 0 then CHR ''-'' # nat_digits (nat (- i)) else nat_digits (nat i))"

definition helvetica :: string where
  "helvetica = ''/System/Library/Fonts/Helvetica.ttc''"

text \<open>
  The \<^verbatim>\<open>try\<close> block that loads the three fonts, with its bare \<^verbatim>\<open>except\<close>: the first
  load that raises sends control to the handler, which sets all three fonts.
\<close>

definition load_fonts :: "'f pil \<Rightarrow> int \<Rightarrow> int \<Rightarrow> int \<Rightarrow> 'f \<times> 'f \<times> 'f" where
  "load_fonts pil title_size subtitle_size number_size =
     (let fallback = (pil_load_default pil, pil_load_default pil, pil_load_default pil) in
      case pil_truetype pil helvetica title_size of
        None \<Rightarrow> fallback
      | Some title_font \<Rightarrow>
          (case pil_truetype pil helvetica subtitle_size of
             None \<Rightarrow> fallback
           | Some subtitle_font \<Rightarrow>
               (case pil_truetype pil helvetica number_size of
                  None \<Rightarrow> fallback
                | Some number_font \<Rightarrow> (title_font, subtitle_font, number_font))))"

text \<open>
  The two \<^verbatim>\<open>for i, line in enumerate(...)\<close> loops that draw the title and the subtitle
  lines.  They differ in the font, the line height and the stroke width only.  Python's
  \<^verbatim>\<open>//\<close> on integers is floor division, as \<open>div\<close> on \<^typ>\<open>int\<close> is.
\<close>

fun draw_lines ::
  "'f pil \<Rightarrow> ('p, 'f) heap \<Rightarrow> nat \<Rightarrow> 'f \<Rightarrow> int \<Rightarrow> int \<Rightarrow> int \<Rightarrow> int \<Rightarrow> int \<Rightarrow> string list
     \<Rightarrow> error + ('p, 'f) heap"
where
  "draw_lines pil h draw fnt width start_y line_height stroke i [] = Inr h"
| "draw_lines pil h draw fnt width start_y line_height stroke i (line # rest) =
     (let line_bbox = pil_textbbox pil fnt line;
          line_width = bbox_width line_bbox;
          line_x = (width - line_width) div 2;
          line_y = start_y + (i * line_height)
      in and_then
           (draw_text h draw
              \<lparr>cmd_xy = (line_x, line_y), cmd_text = line, cmd_font = fnt,
               cmd_fill = ''white'', cmd_stroke_width = stroke, cmd_stroke_fill = ''black''\<rparr>)
           (\<lambda>h. draw_lines pil h draw fnt width start_y line_height stroke (i + 1) rest))"

text \<open>
  \<^verbatim>\<open>add_text_overlay(image, slide_data, slide_number, format_type)\<close>, on the store: it
  takes the reference of the canvas and returns the reference of the new image, with
  the store as the call leaves it.
\<close>

definition add_text_overlay ::
  "'f pil \<Rightarrow> ('p, 'f) heap \<Rightarrow> nat \<Rightarrow> slide \<Rightarrow> int \<Rightarrow> string \<Rightarrow> error + (nat \<times> ('p, 'f) heap)"
where
  "add_text_overlay pil h img slide_data slide_number format_type =
     and_then (image_copy h img) (\<lambda>(img_with_text, h).
     let draw = img_with_text in
     and_then (image_size h img_with_text) (\<lambda>(width, height).
     let (title_size, subtitle_size, number_size, margin, text_margin) =
           (if format_type = ''portrait'' then (75, 45, 100, 60, 100)
            else (70, 42, 90, 80, 150));
         (title_font, subtitle_font, number_font) =
           load_fonts pil title_size subtitle_size number_size
     in
     and_then (image_size h img) (\<lambda>sz.
     let (overlay, h) = image_new h ''RGBA'' sz (0, 0, 0, 100) in
     and_then (image_convert h img_with_text ''RGBA'') (\<lambda>(rgba, h).
     and_then (alpha_composite h rgba overlay) (\<lambda>(img_with_text, h).
     let draw = img_with_text;
         number_text = py_str slide_number
     in
     and_then
       (draw_text h draw
          \<lparr>cmd_xy = (margin, margin), cmd_text = number_text, cmd_font = number_font,
           cmd_fill = ''white'', cmd_stroke_width = 3, cmd_stroke_fill = ''black''\<rparr>) (\<lambda>h.
     let max_title_width = width - (text_margin * 2);
         wrapped_title =
           wrap_text (pil_textbbox pil) (slide_title slide_data) title_font max_title_width;
         title_lines = py_split newline wrapped_title;
         title_line_height = title_size + 10;
         total_title_height = int (length title_lines) * title_line_height;
         title_start_y = (height div 2) - (total_title_height div 2) - 30
     in
     and_then
       (draw_lines pil h draw title_font width title_start_y title_line_height 4 0 title_lines)
       (\<lambda>h.
     let max_subtitle_width = width - (text_margin * 2);
         wrapped_subtitle =
           wrap_text (pil_textbbox pil) (slide_subtitle slide_data) subtitle_font
             max_subtitle_width;
         subtitle_lines = py_split newline wrapped_subtitle;
         subtitle_line_height = subtitle_size + 8;
         subtitle_start_y = title_start_y + total_title_height + 50
     in
     and_then
       (draw_lines pil h draw subtitle_font width subtitle_start_y subtitle_line_height 2 0
          subtitle_lines)
       (\<lambda>h. image_convert h img_with_text ''RGB''))))))))"

section \<open>\<open>generate_listicle_images\<close>\<close>

record format_config =
  fc_width :: int
  fc_height :: int
  fc_name :: string

text \<open>The two module-level dictionaries, in the order they are written.\<close>

definition FORMATS :: "(string \<times> format_config) list" where
  "FORMATS =
     [(''landscape'', \<lparr>fc_width = 1920, fc_height = 1080, fc_name = ''YouTube/Landscape''\<rparr>),
      (''portrait'', \<lparr>fc_width = 1080, fc_height = 1920, fc_name = ''TikTok/Portrait''\<rparr>)]"

definition BACKGROUND_TYPES :: "(string \<times> string) list" where
  "BACKGROUND_TYPES =
     [(''color'', ''Solid color gradients''),
      (''ai'', ''AI-generated images''),
      (''stock'', ''Stock images from Unsplash'')]"

text \<open>
  What \<^verbatim>\<open>generate_listicle_images\<close> changes: the images alive and the PNG files
  written, each with its path.  Console output is left out.
\<close>

record ('p, 'f) world =
  w_heap :: "('p, 'f) heap"
  w_files :: "(string \<times> ('p, 'f) image) list"

text \<open>
  The collaborators of \<^verbatim>\<open>generate_listicle_images\<close>.  None of them bears on the
  properties below, which hold for every choice of them: the content lookup
  \<^verbatim>\<open>generate_content_for_topic(topic, num_slides)\<close>, the three background providers
  (each returns a new image), the housekeeping of the output directory
  (\<^verbatim>\<open>os.makedirs\<close> and \<^verbatim>\<open>cleanup_old_images\<close>), and the path of the \<open>i\<close>-th file, which
  the source builds from the topic, the format key and the clock.
\<close>

record ('p, 'f) collab =
  co_content :: "string \<Rightarrow> int \<Rightarrow> slide list"
  co_color_background :: "int \<Rightarrow> int \<Rightarrow> int \<Rightarrow> ('p, 'f) image"
  co_ai_background :: "int \<Rightarrow> int \<Rightarrow> slide \<Rightarrow> ('p, 'f) image"
  co_stock_background :: "int \<Rightarrow> int \<Rightarrow> slide \<Rightarrow> string \<Rightarrow> ('p, 'f) image"
  co_cleanup :: "(string \<times> ('p, 'f) image) list \<Rightarrow> (string \<times> ('p, 'f) image) list"
  co_filepath :: "string \<Rightarrow> string \<Rightarrow> int \<Rightarrow> string"

text \<open>The \<^verbatim>\<open>for i, slide_data in enumerate(slides_content)\<close> loop.\<close>

fun slides_loop ::
  "'f pil \<Rightarrow> ('p, 'f) collab \<Rightarrow> string \<Rightarrow> string \<Rightarrow> string \<Rightarrow> int \<Rightarrow> int \<Rightarrow> ('p, 'f) world \<Rightarrow> int
     \<Rightarrow> slide list \<Rightarrow> string list \<Rightarrow> (error + string list) \<times> ('p, 'f) world"
where
  "slides_loop pil co topic format_type background_type width height w i [] generated_images =
     (Inr generated_images, w)"
| "slides_loop pil co topic format_type background_type width height w i (slide_data # rest)
     generated_images =
     (let made =
            (if background_type = ''color'' then co_color_background co width height i
             else if background_type = ''ai'' then co_ai_background co width height slide_data
             else if background_type = ''stock''
                  then co_stock_background co width height slide_data topic
             else co_color_background co width height i);
          (background, h) = alloc (w_heap w) made
      in case add_text_overlay pil h background slide_data (i + 1) format_type of
           Inl e \<Rightarrow> (Inl e, w\<lparr>w_heap := h\<rparr>)
         | Inr (image_with_text, h) \<Rightarrow>
             (case lookup h image_with_text of
                Inl e \<Rightarrow> (Inl e, w\<lparr>w_heap := h\<rparr>)
              | Inr saved \<Rightarrow>
                  let filepath = co_filepath co topic format_type i
                  in slides_loop pil co topic format_type background_type width height
                       (w\<lparr>w_heap := h, w_files := w_files w @ [(filepath, saved)]\<rparr>)
                       (i + 1) rest (generated_images @ [filepath])))"

definition format_error :: string where
  "format_error = ''Format must be one of: ['landscape', 'portrait']''"

definition background_error :: string where
  "background_error = ''Background type must be one of: ['color', 'ai', 'stock']''"

text \<open>
  \<^verbatim>\<open>generate_listicle_images(topic, format_type, background_type, num_slides)\<close>.  It
  returns the list of paths or the exception raised, and the world as it is by then.
\<close>

definition generate_listicle_images ::
  "'f pil \<Rightarrow> ('p, 'f) collab \<Rightarrow> ('p, 'f) world \<Rightarrow> string \<Rightarrow> string \<Rightarrow> string \<Rightarrow> int
     \<Rightarrow> (error + string list) \<times> ('p, 'f) world"
where
  "generate_listicle_images pil co w topic format_type background_type num_slides =
     (if map_of FORMATS format_type = None then (Inl (ValueError format_error), w)
      else if map_of BACKGROUND_TYPES background_type = None
           then (Inl (ValueError background_error), w)
      else case map_of FORMATS format_type of
             None \<Rightarrow> (Inl (KeyError format_type), w)
           | Some format_config \<Rightarrow>
               let width = fc_width format_config;
                   height = fc_height format_config;
                   slides_content = co_content co topic num_slides;
                   w = w\<lparr>w_files := co_cleanup co (w_files w)\<rparr>
               in slides_loop pil co topic format_type background_type width height w 0
                    slides_content [])"

section \<open>Notions the properties are stated with\<close>

text \<open>The text commands painted into a raster, oldest first.\<close>

fun strokes :: "('p, 'f) raster \<Rightarrow> 'f text_cmd list" where
  "strokes (Pixels p) = []"
| "strokes (Solid mode sz color) = []"
| "strokes (Converted mode r) = strokes r"
| "strokes (Composited r1 r2) = strokes r1 @ strokes r2"
| "strokes (Stroked r cmd) = strokes r @ [cmd]"

text \<open>The image a call returns, by value: what the caller finds behind the reference.\<close>

definition rendered :: "error + nat \<times> ('p, 'f) heap \<Rightarrow> error + ('p, 'f) image" where
  "rendered res = and_then res (\<lambda>(out, h). lookup h out)"

text \<open>
  The text command of line \<open>k\<close> of a block, as the body of the drawing loops computes it.
\<close>

definition placed ::
  "'f pil \<Rightarrow> 'f \<Rightarrow> int \<Rightarrow> int \<Rightarrow> int \<Rightarrow> int \<Rightarrow> nat \<times> string \<Rightarrow> 'f text_cmd" where
  "placed pil fnt width start_y line_height stroke kl =
     (case kl of (k, line) \<Rightarrow>
        \<lparr>cmd_xy = ((width - bbox_width (pil_textbbox pil fnt line)) div 2,
                   start_y + int k * line_height),
         cmd_text = line, cmd_font = fnt, cmd_fill = ''white'',
         cmd_stroke_width = stroke, cmd_stroke_fill = ''black''\<rparr>)"

text \<open>All text commands of one call, in drawing order: number, title lines, subtitle lines.\<close>

definition overlay_cmds :: "'f pil \<Rightarrow> int \<times> int \<Rightarrow> slide \<Rightarrow> int \<Rightarrow> string \<Rightarrow> 'f text_cmd list" where
  "overlay_cmds pil sz slide_data slide_number format_type =
     (case sz of (width, height) \<Rightarrow>
      let (title_size, subtitle_size, number_size, margin, text_margin) =
            (if format_type = ''portrait'' then (75, 45, 100, 60, 100)
             else (70, 42, 90, 80, 150));
          (title_font, subtitle_font, number_font) =
            load_fonts pil title_size subtitle_size number_size;
          title_lines = py_split newline
            (wrap_text (pil_textbbox pil) (slide_title slide_data) title_font
               (width - (text_margin * 2)));
          total_title_height = int (length title_lines) * (title_size + 10);
          title_start_y = (height div 2) - (total_title_height div 2) - 30;
          subtitle_lines = py_split newline
            (wrap_text (pil_textbbox pil) (slide_subtitle slide_data) subtitle_font
               (width - (text_margin * 2)))
      in \<lparr>cmd_xy = (margin, margin), cmd_text = py_str slide_number, cmd_font = number_font,
           cmd_fill = ''white'', cmd_stroke_width = 3, cmd_stroke_fill = ''black''\<rparr> #
         map (placed pil title_font width title_start_y (title_size + 10) 4)
           (enumerate 0 title_lines) @
         map (placed pil subtitle_font width (title_start_y + total_title_height + 50)
                (subtitle_size + 8) 2)
           (enumerate 0 subtitle_lines))"

definition darkened :: "('p, 'f) image \<Rightarrow> ('p, 'f) raster" where
  "darkened v =
     Composited (Converted ''RGBA'' (im_raster v)) (Solid ''RGBA'' (im_size v) (0, 0, 0, 100))"

definition painted :: "'f pil \<Rightarrow> ('p, 'f) image \<Rightarrow> slide \<Rightarrow> int \<Rightarrow> string \<Rightarrow> ('p, 'f) raster" where
  "painted pil v slide_data slide_number format_type =
     foldl Stroked (darkened v) (overlay_cmds pil (im_size v) slide_data slide_number format_type)"

text \<open>The five images a successful call adds to the store, in the order it makes them.\<close>

definition overlay_heap ::
  "'f pil \<Rightarrow> ('p, 'f) image \<Rightarrow> slide \<Rightarrow> int \<Rightarrow> string \<Rightarrow> ('p, 'f) image list" where
  "overlay_heap pil v slide_data slide_number format_type =
     [v,
      \<lparr>im_mode = ''RGBA'', im_size = im_size v,
       im_raster = Solid ''RGBA'' (im_size v) (0, 0, 0, 100)\<rparr>,
      v\<lparr>im_mode := ''RGBA'', im_raster := Converted ''RGBA'' (im_raster v)\<rparr>,
      \<lparr>im_mode = ''RGBA'', im_size = im_size v,
       im_raster = painted pil v slide_data slide_number format_type\<rparr>,
      \<lparr>im_mode = ''RGB'', im_size = im_size v,
       im_raster = Converted ''RGB'' (painted pil v slide_data slide_number format_type)\<rparr>]"

subsection \<open>Invariants of the wrapping loop\<close>

definition words_in :: "string list \<times> string \<Rightarrow> string list" where
  "words_in st = (case st of (lines, current_line) \<Rightarrow>
     concat (map words_of lines) @ words_of current_line)"




definition chars_ok :: "string \<Rightarrow> string list \<times> string \<Rightarrow> bool" where
  "chars_ok text st \<longleftrightarrow> (case st of (lines, current_line) \<Rightarrow>
     (\<forall>l \<in> set lines. set l \<subseteq> insert space (set text)) \<and>
     set current_line \<subseteq> insert space (set text))"

section \<open>Data of the worked examples\<close>

text \<open>
  A font is here its size, and a string is as wide as its number of characters times
  that size.
\<close>

definition mono_bbox :: "int \<Rightarrow> string \<Rightarrow> bbox" where
  "mono_bbox sz s = (0, 0, sz * int (length s), sz)"

text \<open>A library for the worked examples: no TrueType font can be read.\<close>

definition mono_pil :: "int pil" where
  "mono_pil = \<lparr>pil_truetype = (\<lambda>path sz. None), pil_load_default = 10,
               pil_textbbox = mono_bbox\<rparr>"

text \<open>The same library with every TrueType font at hand, a font being its size.\<close>

definition sized_pil :: "int pil" where
  "sized_pil = \<lparr>pil_truetype = (\<lambda>path sz. Some sz), pil_load_default = 10,
                pil_textbbox = mono_bbox\<rparr>"

definition bg :: "(unit, int) image" where
  "bg = \<lparr>im_mode = ''RGB'', im_size = (1920, 1080), im_raster = Pixels ()\<rparr>"

definition sl :: slide where
  "sl = \<lparr>slide_title = ''Time Blocking'',
         slide_subtitle = ''Schedule your day in focused chunks'',
         slide_visual_theme = ''modern blue professional''\<rparr>"

definition no_collab :: "(unit, int) collab" where
  "no_collab =
     \<lparr>co_content = (\<lambda>topic n. [sl]),
      co_color_background = (\<lambda>width height i. bg),
      co_ai_background = (\<lambda>width height s. bg),
      co_stock_background = (\<lambda>width height s topic. bg),
      co_cleanup = (\<lambda>files. files),
      co_filepath = (\<lambda>topic format_type i. ''slide.png'')\<rparr>"

definition w0 :: "(unit, int) world" where
  "w0 = \<lparr>w_heap = [], w_files = []\<rparr>"

section \<open>Facts about splitting\<close>

lemma py_split_not_Nil: "py_split sep s \<noteq> []"
  by (induction s) (auto split: list.splits)

lemma py_split_append:
  "py_split sep (a @ sep # b) = py_split sep a @ py_split sep b"
proof (induction a)
  case Nil
  show ?case by simp
next
  case (Cons c a)
  show ?case
  proof (cases "c = sep")
    case True
    with Cons show ?thesis by simp
  next
    case False
    obtain w ws where ws: "py_split sep a = w # ws"
      using py_split_not_Nil [of sep a] by (cases "py_split sep a") auto
    with False Cons show ?thesis by simp
  qed
qed

lemma py_split_no_sep: "w \<in> set (py_split sep s) \<Longrightarrow> sep \<notin> set w"
proof (induction s arbitrary: w)
  case Nil
  then show ?case by simp
next
  case (Cons c s)
  then show ?case
    by (cases "py_split sep s") (auto split: if_splits)
qed

lemma py_split_id: "sep \<notin> set w \<Longrightarrow> py_split sep w = [w]"
  by (induction w) auto

lemma words_of_Nil: "words_of [] = []"
  by (simp add: words_of_def)

lemma words_of_append:
  "words_of (a @ space # b) = words_of a @ words_of b"
  by (simp add: words_of_def py_split_append)

lemma words_of_word:
  "space \<notin> set w \<Longrightarrow> words_of w = (if w = [] then [] else [w])"
  by (simp add: words_of_def py_split_id)

lemma concat_words_of_fields:
  "\<forall>w \<in> set ws. space \<notin> set w \<Longrightarrow> concat (map words_of ws) = filter (\<lambda>w. w \<noteq> []) ws"
  by (induction ws) (auto simp: words_of_word)

section \<open>The loop keeps every word\<close>

lemma wrap_step_words:
  assumes "space \<notin> set word"
  shows "words_in (wrap_step textbbox font max_width word st) = words_in st @ words_of word"
proof (cases st)
  case (Pair lines current_line)
  show ?thesis
  proof (cases "current_line = []")
    case True
    with Pair show ?thesis
      by (simp add: wrap_step_def words_in_def Let_def words_of_Nil)
  next
    case False
    with Pair show ?thesis
      by (simp add: wrap_step_def words_in_def Let_def words_of_append)
  qed
qed

lemma wrap_loop_words:
  "\<forall>w \<in> set words. space \<notin> set w \<Longrightarrow>
   words_in (wrap_loop textbbox font max_width words st) = words_in st @ concat (map words_of words)"
  by (induction words arbitrary: st) (simp_all add: wrap_step_words)

lemma wrap_lines_words:
  "concat (map words_of (wrap_lines textbbox text font max_width)) = words_of text"
proof -
  let ?words = "py_split space text"
  have fields: "\<forall>w \<in> set ?words. space \<notin> set w"
    by (simp add: py_split_no_sep)
  obtain lines current_line
    where st: "wrap_loop textbbox font max_width ?words ([], []) = (lines, current_line)"
    by (cases "wrap_loop textbbox font max_width ?words ([], [])")
  have "words_in (lines, current_line) = concat (map words_of ?words)"
    using wrap_loop_words [OF fields, of textbbox font max_width "([], [])"] st
    by (simp add: words_in_def words_of_Nil)
  also have "\<dots> = words_of text"
    using concat_words_of_fields [OF fields] by (simp add: words_of_def)
  finally have "concat (map words_of lines) @ words_of current_line = words_of text"
    by (simp add: words_in_def)
  then show ?thesis
    using st by (auto simp: wrap_lines_def words_of_Nil)
qed


section \<open>Lines wider than the budget are single words\<close>




section \<open>The loop adds at most one line for each word\<close>




section \<open>The returned string and its lines\<close>

lemma py_split_chars: "\<forall>w \<in> set (py_split sep s). set w \<subseteq> set s"
  by (induction s) (auto split: list.splits)

lemma py_split_join:
  "ls \<noteq> [] \<Longrightarrow> \<forall>l \<in> set ls. sep \<notin> set l \<Longrightarrow> py_split sep (py_join [sep] ls) = ls"
proof (induction ls)
  case Nil
  then show ?case by simp
next
  case (Cons x ls)
  show ?case
  proof (cases ls)
    case Nil
    with Cons.prems show ?thesis by (simp add: py_split_id)
  next
    case (Cons y ys)
    then have "py_join [sep] (x # ls) = x @ sep # py_join [sep] ls" by simp
    moreover have "py_split sep (py_join [sep] ls) = ls"
      using Cons.IH Cons.prems Cons by simp
    ultimately show ?thesis
      using Cons.prems by (simp add: py_split_append py_split_id)
  qed
qed

lemma wrap_step_chars:
  "set word \<subseteq> set text \<Longrightarrow> chars_ok text st \<Longrightarrow>
   chars_ok text (wrap_step textbbox font max_width word st)"
  by (cases st) (auto simp: wrap_step_def chars_ok_def Let_def)

lemma wrap_loop_chars:
  "\<forall>w \<in> set ws. set w \<subseteq> set text \<Longrightarrow> chars_ok text st \<Longrightarrow>
   chars_ok text (wrap_loop textbbox font max_width ws st)"
  by (induction ws arbitrary: st) (simp_all add: wrap_step_chars)

lemma wrap_lines_chars:
  "\<forall>l \<in> set (wrap_lines textbbox text font max_width). set l \<subseteq> insert space (set text)"
proof -
  let ?words = "py_split space text"
  obtain lines current_line
    where st: "wrap_loop textbbox font max_width ?words ([], []) = (lines, current_line)"
    by (cases "wrap_loop textbbox font max_width ?words ([], [])")
  have "chars_ok text ([], [])"
    by (simp add: chars_ok_def)
  moreover have "\<forall>w \<in> set ?words. set w \<subseteq> set text"
    by (rule py_split_chars)
  ultimately have "chars_ok text (wrap_loop textbbox font max_width ?words ([], []))"
    by (rule wrap_loop_chars [rotated])
  then have "chars_ok text (lines, current_line)"
    using st by simp
  then show ?thesis
    using st by (auto simp: wrap_lines_def chars_ok_def)
qed

lemma wrap_text_split:
  assumes "newline \<notin> set text"
  shows "py_split newline (wrap_text textbbox text font max_width) =
           (if wrap_lines textbbox text font max_width = [] then [[]]
            else wrap_lines textbbox text font max_width)"
proof (cases "wrap_lines textbbox text font max_width = []")
  case True
  then show ?thesis by (simp add: wrap_text_def)
next
  case False
  have "\<forall>l \<in> set (wrap_lines textbbox text font max_width). newline \<notin> set l"
    using wrap_lines_chars [of textbbox "text" font max_width] assms
    by (auto simp: space_def newline_def)
  with False show ?thesis
    by (simp add: wrap_text_def py_split_join)
qed

section \<open>The store operations on live references\<close>

lemma and_then_Inr: "and_then (Inr x) f = f x"
  by (simp add: and_then_def)

lemma lookup_ok: "a < length h \<Longrightarrow> lookup h a = Inr (h ! a)"
  by (simp add: lookup_def)

lemma image_size_ok: "a < length h \<Longrightarrow> image_size h a = Inr (im_size (h ! a))"
  by (simp add: image_size_def lookup_ok and_then_Inr)

lemma image_copy_ok: "a < length h \<Longrightarrow> image_copy h a = Inr (length h, h @ [h ! a])"
  by (simp add: image_copy_def lookup_ok and_then_Inr alloc_def)

lemma image_convert_ok:
  "a < length h \<Longrightarrow> image_convert h a mode =
     Inr (length h, h @ [(h ! a)\<lparr>im_mode := mode, im_raster := Converted mode (im_raster (h ! a))\<rparr>])"
  by (simp add: image_convert_def lookup_ok and_then_Inr alloc_def)

lemma alpha_composite_ok:
  "a < length h \<Longrightarrow> b < length h \<Longrightarrow> im_mode (h ! a) = ''RGBA'' \<Longrightarrow> im_mode (h ! b) = ''RGBA'' \<Longrightarrow>
   im_size (h ! a) = im_size (h ! b) \<Longrightarrow>
   alpha_composite h a b =
     Inr (length h, h @ [\<lparr>im_mode = ''RGBA'', im_size = im_size (h ! a),
                          im_raster = Composited (im_raster (h ! a)) (im_raster (h ! b))\<rparr>])"
  by (simp add: alpha_composite_def lookup_ok and_then_Inr alloc_def)

lemma draw_text_ok:
  "a < length h \<Longrightarrow> draw_text h a cmd =
     Inr (h[a := (h ! a)\<lparr>im_raster := Stroked (im_raster (h ! a)) cmd\<rparr>])"
  by (simp add: draw_text_def lookup_ok and_then_Inr)

lemma draw_lines_ok:
  "a < length h \<Longrightarrow>
   draw_lines pil h a fnt width start_y line_height stroke i lines =
     Inr (h[a := (h ! a)\<lparr>im_raster :=
            foldl Stroked (im_raster (h ! a))
              (map (placed pil fnt width (start_y + i * line_height) line_height stroke)
                 (enumerate 0 lines))\<rparr>])"
proof (induction lines arbitrary: h i)
  case Nil
  then show ?case by simp
next
  case (Cons line rest)
  let ?c = "placed pil fnt width (start_y + i * line_height) line_height stroke (0, line)"
  let ?h = "h[a := (h ! a)\<lparr>im_raster := Stroked (im_raster (h ! a)) ?c\<rparr>]"
  have len: "a < length ?h" using Cons.prems by simp
  have shift: "map (placed pil fnt width (start_y + i * line_height) line_height stroke)
                 (enumerate (Suc 0) rest) =
               map (placed pil fnt width (start_y + (i + 1) * line_height) line_height stroke)
                 (enumerate 0 rest)"
    by (simp add: enumerate_Suc_eq placed_def algebra_simps split_def)
  have step: "draw_lines pil h a fnt width start_y line_height stroke i (line # rest) =
               draw_lines pil ?h a fnt width start_y line_height stroke (i + 1) rest"
    using Cons.prems by (simp add: draw_text_ok and_then_Inr Let_def placed_def)
  have at: "?h ! a = (h ! a)\<lparr>im_raster := Stroked (im_raster (h ! a)) ?c\<rparr>"
    using Cons.prems by simp
  show ?case
    unfolding step Cons.IH [OF len, of "i + 1"] at
    using shift by simp
qed

section \<open>What a call of \<open>add_text_overlay\<close> leaves in the store\<close>

lemma add_text_overlay_eq:
  assumes "img < length h"
  shows "add_text_overlay pil h img slide_data slide_number format_type =
           Inr (length h + 4, h @ overlay_heap pil (h ! img) slide_data slide_number format_type)"
proof -
  obtain width height where sz: "im_size (h ! img) = (width, height)"
    by (cases "im_size (h ! img)")
  show ?thesis
  proof (cases "format_type = ''portrait''")
    case True
    obtain tf sf nf where fonts: "load_fonts pil 75 45 100 = (tf, sf, nf)"
      by (cases "load_fonts pil 75 45 100") auto
    show ?thesis
      using assms sz True fonts
      by (simp add: add_text_overlay_def overlay_heap_def painted_def darkened_def
          overlay_cmds_def and_then_Inr
          image_copy_ok image_size_ok image_new_def alloc_def image_convert_ok
          alpha_composite_ok draw_text_ok draw_lines_ok nth_append list_update_append Let_def)
  next
    case False
    obtain tf sf nf where fonts: "load_fonts pil 70 42 90 = (tf, sf, nf)"
      by (cases "load_fonts pil 70 42 90") auto
    show ?thesis
      using assms sz False fonts
      by (simp add: add_text_overlay_def overlay_heap_def painted_def darkened_def
          overlay_cmds_def and_then_Inr
          image_copy_ok image_size_ok image_new_def alloc_def image_convert_ok
          alpha_composite_ok draw_text_ok draw_lines_ok nth_append list_update_append Let_def)
  qed
qed

lemma add_text_overlay_no_image:
  assumes "\<not> img < length h"
  shows "add_text_overlay pil h img slide_data slide_number format_type = Inl NoSuchImage"
  using assms
  by (simp add: add_text_overlay_def image_copy_def lookup_def and_then_def)

lemma lookup_Inr: "lookup h a = Inr v \<longleftrightarrow> a < length h \<and> h ! a = v"
  by (auto simp: lookup_def)

lemma rendered_overlay:
  assumes "lookup h img = Inr v"
  shows "rendered (add_text_overlay pil h img slide_data slide_number format_type) =
           Inr \<lparr>im_mode = ''RGB'', im_size = im_size v,
                im_raster = Converted ''RGB'' (painted pil v slide_data slide_number format_type)\<rparr>"
proof -
  from assms have live: "img < length h" and v: "h ! img = v"
    by (simp_all add: lookup_Inr)
  show ?thesis
    unfolding add_text_overlay_eq [OF live] v
    by (simp add: rendered_def and_then_Inr lookup_def overlay_heap_def nth_append)
qed

lemma strokes_foldl: "strokes (foldl Stroked r cmds) = strokes r @ cmds"
  by (induction cmds arbitrary: r) simp_all

lemma strokes_painted:
  "strokes (painted pil v slide_data slide_number format_type) =
     strokes (im_raster v) @ overlay_cmds pil (im_size v) slide_data slide_number format_type"
  by (simp add: painted_def darkened_def strokes_foldl)

lemma placed_fun:
  "placed pil fnt width start_y line_height stroke =
     (\<lambda>(k, line).
        \<lparr>cmd_xy = ((width - bbox_width (pil_textbbox pil fnt line)) div 2,
                   start_y + int k * line_height),
         cmd_text = line, cmd_font = fnt, cmd_fill = ''white'',
         cmd_stroke_width = stroke, cmd_stroke_fill = ''black''\<rparr>)"
  by (rule ext) (simp add: placed_def)

lemma overlay_cmds_unfold:
  fixes title_size subtitle_size number_size margin text_margin :: int
  assumes sizes: "(title_size, subtitle_size, number_size, margin, text_margin) =
            (if format_type = ''portrait'' then (75, 45, 100, 60, 100)
             else (70, 42, 90, 80, 150))"
    and fonts: "load_fonts pil title_size subtitle_size number_size =
            (title_font, subtitle_font, number_font)"
    and tl: "title_lines = py_split newline
            (wrap_text (pil_textbbox pil) (slide_title slide_data) title_font
               (width - text_margin * 2))"
    and sl: "subtitle_lines = py_split newline
            (wrap_text (pil_textbbox pil) (slide_subtitle slide_data) subtitle_font
               (width - text_margin * 2))"
    and start: "title_start_y =
            height div 2 - (int (length title_lines) * (title_size + 10)) div 2 - 30"
  shows "overlay_cmds pil (width, height) slide_data slide_number format_type =
           \<lparr>cmd_xy = (margin, margin), cmd_text = py_str slide_number, cmd_font = number_font,
             cmd_fill = ''white'', cmd_stroke_width = 3, cmd_stroke_fill = ''black''\<rparr> #
           map (placed pil title_font width title_start_y (title_size + 10) 4)
             (enumerate 0 title_lines) @
           map (placed pil subtitle_font width
                  (title_start_y + int (length title_lines) * (title_size + 10) + 50)
                  (subtitle_size + 8) 2)
             (enumerate 0 subtitle_lines)"
proof (cases "format_type = ''portrait''")
  case True
  with sizes fonts have "load_fonts pil 75 45 100 = (title_font, subtitle_font, number_font)"
    by simp
  with True sizes tl sl start show ?thesis
    by (simp add: overlay_cmds_def Let_def add_ac)
next
  case False
  with sizes fonts have "load_fonts pil 70 42 90 = (title_font, subtitle_font, number_font)"
    by simp
  with False sizes tl sl start show ?thesis
    by (simp add: overlay_cmds_def Let_def add_ac)
qed

lemma new_strokes:
  assumes run: "rendered (add_text_overlay pil h img slide_data slide_number format_type) = Inr r"
    and canvas: "lookup h img = Inr v"
  shows "strokes (im_raster r) =
           strokes (im_raster v) @ overlay_cmds pil (im_size v) slide_data slide_number format_type"
  using run unfolding rendered_overlay [OF canvas]
  by (auto simp: strokes_painted)

lemma overlay_cmds_cong:
  assumes "slide_title s1 = slide_title s2" and "slide_subtitle s1 = slide_subtitle s2"
  shows "overlay_cmds pil sz s1 n format_type = overlay_cmds pil sz s2 n format_type"
  using assms by (simp add: overlay_cmds_def)

lemma rendered_no_image:
  assumes "lookup h img = Inl e"
  shows "rendered (add_text_overlay pil h img slide_data slide_number format_type) = Inl NoSuchImage"
proof -
  from assms have "\<not> img < length h"
    by (simp add: lookup_def split: if_splits)
  then show ?thesis
    by (simp add: add_text_overlay_no_image rendered_def and_then_def)
qed


lemma overlay_cmds_length:
  "3 \<le> length (overlay_cmds pil sz slide_data slide_number format_type)"
proof -
  obtain width height where dims: "sz = (width, height)"
    by (cases sz)
  obtain title_size subtitle_size number_size margin text_margin :: int
    where sizes: "(title_size, subtitle_size, number_size, margin, text_margin) =
            (if format_type = ''portrait'' then (75, 45, 100, 60, 100)
             else (70, 42, 90, 80, 150))"
    by (cases "format_type = ''portrait''") auto
  obtain title_font subtitle_font number_font
    where fonts: "load_fonts pil title_size subtitle_size number_size =
            (title_font, subtitle_font, number_font)"
    by (cases "load_fonts pil title_size subtitle_size number_size") auto
  let ?tl = "py_split newline (wrap_text (pil_textbbox pil) (slide_title slide_data)
                title_font (width - text_margin * 2))"
  let ?sl = "py_split newline (wrap_text (pil_textbbox pil) (slide_subtitle slide_data)
                subtitle_font (width - text_margin * 2))"
  have len: "length (overlay_cmds pil sz slide_data slide_number format_type) =
               Suc (length ?tl + length ?sl)"
    unfolding dims overlay_cmds_unfold [OF sizes fonts refl refl refl] by simp
  have "0 < length ?tl" and "0 < length ?sl"
    using py_split_not_Nil [of newline] by simp_all
  with len show ?thesis
    by linarith
qed

section \<open>The worked example, evaluated\<close>

lemma spaces_example:
  "wrap_lines mono_bbox '' a  b'' 10 50 = [''a  b''] \<and>
   wrap_lines mono_bbox ''a  b'' 10 10 = [''a'', ''b'']"
  by (simp add: wrap_lines_def wrap_step_def mono_bbox_def bbox_width_def space_def Let_def)

lemma title_lines_example:
  "py_split newline (wrap_text (pil_textbbox sized_pil) (slide_title sl) 70 (1920 - 150 * 2)) =
     [''Time Blocking'']"
  by (simp add: wrap_text_def wrap_lines_def wrap_step_def sized_pil_def sl_def mono_bbox_def
      bbox_width_def space_def newline_def Let_def)

lemma subtitle_lines_example:
  "py_split newline (wrap_text (pil_textbbox sized_pil) (slide_subtitle sl) 42 (1920 - 150 * 2)) =
     [''Schedule your day in focused chunks'']"
  by (simp add: wrap_text_def wrap_lines_def wrap_step_def sized_pil_def sl_def mono_bbox_def
      bbox_width_def space_def newline_def Let_def)

lemma fonts_example: "load_fonts sized_pil 70 42 90 = (70, 42, 90)"
  by (simp add: load_fonts_def sized_pil_def)

section \<open>Properties of \<open>wrap_text\<close>\<close>

text \<open>
  Claim C1.  Whenever the budget is at least the measured width of every word of the
  text, the words of the lines that \<open>wrap_text\<close> builds, read line after line, are the
  words of the text in their order: none is lost, repeated, cut or moved.  A word is a
  maximal run of characters other than the space; the statement is about the words and
  not about the spaces between them, of which the source keeps some runs and drops
  others.  When the text has no line break, the same holds for the lines of the
  returned string, which the caller gets back by splitting at the line break.
\<close>

theorem wrap_text_keeps_words:
  assumes "\<forall>w \<in> set (words_of T). bbox_width (textbbox font w) \<le> max_width"
  shows "concat (map words_of (wrap_lines textbbox T font max_width)) = words_of T \<and>
         (newline \<notin> set T \<longrightarrow>
            concat (map words_of (py_split newline (wrap_text textbbox T font max_width)))
              = words_of T)"
proof -
  have kept: "concat (map words_of (wrap_lines textbbox T font max_width)) = words_of T"
    by (rule wrap_lines_words)
  have "concat (map words_of (py_split newline (wrap_text textbbox T font max_width)))
          = words_of T" if "newline \<notin> set T"
  proof (cases "wrap_lines textbbox T font max_width = []")
    case True
    with kept have "words_of T = []" by simp
    with True that show ?thesis by (simp add: wrap_text_split words_of_Nil)
  next
    case False
    with kept that show ?thesis by (simp add: wrap_text_split)
  qed
  with kept show ?thesis by simp
qed

theorem wrap_text_keeps_words_witness:
  "wrap_lines mono_bbox ''ab cd ef'' 10 50 = [''ab cd'', ''ef''] \<and>
   words_of ''ab cd ef'' = [''ab'', ''cd'', ''ef''] \<and>
   concat (map words_of (wrap_lines mono_bbox ''ab cd ef'' 10 50)) = words_of ''ab cd ef'' \<and>
   concat (map words_of (py_split newline (wrap_text mono_bbox ''ab cd ef'' 10 50)))
     = words_of ''ab cd ef''"
proof -
  have ws: "words_of ''ab cd ef'' = [''ab'', ''cd'', ''ef'']"
    by (simp add: words_of_def space_def)
  have fits: "\<forall>w \<in> set (words_of ''ab cd ef''). bbox_width (mono_bbox 10 w) \<le> 50"
    by (simp add: ws mono_bbox_def bbox_width_def)
  have no_nl: "newline \<notin> set ''ab cd ef''"
    by (simp add: newline_def)
  have ls: "wrap_lines mono_bbox ''ab cd ef'' 10 50 = [''ab cd'', ''ef'']"
    by (simp add: wrap_lines_def wrap_step_def mono_bbox_def bbox_width_def space_def Let_def)
  show ?thesis
    using wrap_text_keeps_words [of "''ab cd ef''" mono_bbox 10 50] fits no_nl ls ws by blast
qed




section \<open>Properties of \<open>add_text_overlay\<close>\<close>

text \<open>
  In the statements below \<open>v\<close> is the input canvas as the call finds it, \<open>r\<close> the image
  the call returns, and the text commands the call paints are those of \<open>r\<close> after the
  ones \<open>v\<close> already carried; the first of them is the slide number.  Divisions are
  Python's floor division.

  Claim C4.  The title is wrapped into \<open>n \<ge> 1\<close> lines; with \<open>S\<close> the title font size of
  the format, the block is \<open>n * (S + 10)\<close> high and starts at
  \<open>height div 2 - (n * (S + 10)) div 2 - 30\<close>; line \<open>i\<close> is painted at that start plus
  \<open>i * (S + 10)\<close>, at \<open>x = (width - measured width of the line) div 2\<close>, in the title font,
  white, with a black stroke of width 4.
\<close>

theorem title_block_placement:
  fixes pil :: "'f pil" and h :: "('p, 'f) heap"
    and title_size subtitle_size number_size margin text_margin :: int
  assumes run: "rendered (add_text_overlay pil h img slide_data slide_number format_type) = Inr r"
    and canvas: "lookup h img = Inr v"
    and dims: "im_size v = (width, height)"
    and sizes: "(title_size, subtitle_size, number_size, margin, text_margin) =
            (if format_type = ''portrait'' then (75, 45, 100, 60, 100)
             else (70, 42, 90, 80, 150))"
    and fonts: "load_fonts pil title_size subtitle_size number_size =
            (title_font, subtitle_font, number_font)"
    and wrapped: "title_lines = py_split newline
            (wrap_text (pil_textbbox pil) (slide_title slide_data) title_font
               (width - text_margin * 2))"
    and count: "n = int (length title_lines)"
    and total: "total_title_height = n * (title_size + 10)"
    and start: "title_start_y = height div 2 - total_title_height div 2 - 30"
  shows "1 \<le> n \<and>
         take (length title_lines)
           (drop (Suc (length (strokes (im_raster v)))) (strokes (im_raster r))) =
         map (\<lambda>(i, line).
                \<lparr>cmd_xy = ((width - bbox_width (pil_textbbox pil title_font line)) div 2,
                           title_start_y + int i * (title_size + 10)),
                 cmd_text = line, cmd_font = title_font, cmd_fill = ''white'',
                 cmd_stroke_width = 4, cmd_stroke_fill = ''black''\<rparr>)
           (enumerate 0 title_lines)"
proof -
  have "title_lines \<noteq> []"
    unfolding wrapped by (rule py_split_not_Nil)
  then have "1 \<le> n"
    unfolding count by (cases title_lines) simp_all
  moreover
  have start': "title_start_y =
      height div 2 - (int (length title_lines) * (title_size + 10)) div 2 - 30"
    unfolding start total count ..
  have "strokes (im_raster r) =
          strokes (im_raster v) @ overlay_cmds pil (width, height) slide_data slide_number format_type"
    using new_strokes [OF run canvas] dims by simp
  then have "take (length title_lines)
           (drop (Suc (length (strokes (im_raster v)))) (strokes (im_raster r))) =
         map (placed pil title_font width title_start_y (title_size + 10) 4)
           (enumerate 0 title_lines)"
    unfolding overlay_cmds_unfold [OF sizes fonts wrapped refl start']
    by simp
  ultimately show ?thesis
    by (simp add: placed_fun)
qed

theorem title_block_placement_witness:
  "lookup [bg] 0 = Inr bg \<and>
   load_fonts sized_pil 70 42 90 = (70, 42, 90) \<and>
   py_split newline (wrap_text (pil_textbbox sized_pil) (slide_title sl) 70 (1920 - 150 * 2)) =
     [''Time Blocking''] \<and>
   (\<exists>r. rendered (add_text_overlay sized_pil [bg] 0 sl 1 ''landscape'') = Inr r \<and>
        take 1 (drop 1 (strokes (im_raster r))) =
          [\<lparr>cmd_xy = (505, 470), cmd_text = ''Time Blocking'', cmd_font = 70,
            cmd_fill = ''white'', cmd_stroke_width = 4, cmd_stroke_fill = ''black''\<rparr>])"
proof -
  have canvas: "lookup [bg] 0 = Inr bg"
    by (simp add: lookup_def)
  have dims: "im_size bg = (1920, 1080)"
    by (simp add: bg_def)
  have sizes: "(70, 42, 90, 80, 150) =
      (if ''landscape'' = ''portrait'' then (75, 45, 100, 60, 100) else (70, 42, 90, 80, 150 :: int))"
    by simp
  obtain r where run: "rendered (add_text_overlay sized_pil [bg] 0 sl 1 ''landscape'') = Inr r"
    using rendered_overlay [OF canvas] by blast
  have "take (length [''Time Blocking''])
          (drop (Suc (length (strokes (im_raster bg)))) (strokes (im_raster r))) =
        map (\<lambda>(i, line).
               \<lparr>cmd_xy = ((1920 - bbox_width (pil_textbbox sized_pil 70 line)) div 2,
                          470 + int i * (70 + 10)),
                cmd_text = line, cmd_font = 70, cmd_fill = ''white'',
                cmd_stroke_width = 4, cmd_stroke_fill = ''black''\<rparr>)
          (enumerate 0 [''Time Blocking''])"
    using title_block_placement [OF run canvas dims sizes fonts_example
        title_lines_example [symmetric], of 1 80 470]
    by simp
  then have "take 1 (drop 1 (strokes (im_raster r))) =
          [\<lparr>cmd_xy = (505, 470), cmd_text = ''Time Blocking'', cmd_font = 70,
            cmd_fill = ''white'', cmd_stroke_width = 4, cmd_stroke_fill = ''black''\<rparr>]"
    by (simp add: bg_def sized_pil_def mono_bbox_def bbox_width_def)
  with canvas run fonts_example title_lines_example show ?thesis
    by blast
qed

text \<open>
  Claim C5.  The subtitle is wrapped against the budget of the title,
  \<open>width - 2 * text_margin\<close>, and its block starts 50 below the end of the title block, at
  \<open>title_start_y + total_title_height + 50\<close>: line \<open>i\<close> is painted at that start plus
  \<open>i * (subtitle_size + 8)\<close>, centred like a title line, in the subtitle font, white, with
  a black stroke of width 2.  So no subtitle line starts above the end of the title
  block.
\<close>

theorem subtitle_block_placement:
  fixes pil :: "'f pil" and h :: "('p, 'f) heap"
    and title_size subtitle_size number_size margin text_margin :: int
  assumes run: "rendered (add_text_overlay pil h img slide_data slide_number format_type) = Inr r"
    and canvas: "lookup h img = Inr v"
    and dims: "im_size v = (width, height)"
    and sizes: "(title_size, subtitle_size, number_size, margin, text_margin) =
            (if format_type = ''portrait'' then (75, 45, 100, 60, 100)
             else (70, 42, 90, 80, 150))"
    and fonts: "load_fonts pil title_size subtitle_size number_size =
            (title_font, subtitle_font, number_font)"
    and wrapped_title: "title_lines = py_split newline
            (wrap_text (pil_textbbox pil) (slide_title slide_data) title_font
               (width - text_margin * 2))"
    and wrapped_subtitle: "subtitle_lines = py_split newline
            (wrap_text (pil_textbbox pil) (slide_subtitle slide_data) subtitle_font
               (width - text_margin * 2))"
    and total: "total_title_height = int (length title_lines) * (title_size + 10)"
    and start: "title_start_y = height div 2 - total_title_height div 2 - 30"
    and drawn: "subtitle_cmds =
            drop (Suc (length (strokes (im_raster v))) + length title_lines)
              (strokes (im_raster r))"
  shows "subtitle_cmds =
           map (\<lambda>(i, line).
                  \<lparr>cmd_xy = ((width - bbox_width (pil_textbbox pil subtitle_font line)) div 2,
                             (title_start_y + total_title_height + 50)
                               + int i * (subtitle_size + 8)),
                   cmd_text = line, cmd_font = subtitle_font, cmd_fill = ''white'',
                   cmd_stroke_width = 2, cmd_stroke_fill = ''black''\<rparr>)
             (enumerate 0 subtitle_lines) \<and>
         subtitle_cmds \<noteq> [] \<and>
         list_all (\<lambda>c. title_start_y + total_title_height \<le> snd (cmd_xy c)) subtitle_cmds"
proof -
  have start': "title_start_y =
      height div 2 - (int (length title_lines) * (title_size + 10)) div 2 - 30"
    unfolding start total ..
  have "strokes (im_raster r) =
          strokes (im_raster v) @ overlay_cmds pil (width, height) slide_data slide_number format_type"
    using new_strokes [OF run canvas] dims by simp
  then have eq: "subtitle_cmds =
      map (placed pil subtitle_font width (title_start_y + total_title_height + 50)
             (subtitle_size + 8) 2)
        (enumerate 0 subtitle_lines)"
    unfolding drawn overlay_cmds_unfold [OF sizes fonts wrapped_title wrapped_subtitle start'] total
    by simp
  have "subtitle_lines \<noteq> []"
    unfolding wrapped_subtitle by (rule py_split_not_Nil)
  then have nonempty: "subtitle_cmds \<noteq> []"
    unfolding eq by (simp add: enumerate_eq_zip)
  have "0 \<le> subtitle_size + 8"
    using sizes by (simp split: if_splits)
  then have below: "list_all (\<lambda>c. title_start_y + total_title_height \<le> snd (cmd_xy c)) subtitle_cmds"
    unfolding eq by (simp add: list_all_iff placed_def split_def)
  from eq nonempty below show ?thesis
    by (simp add: placed_fun)
qed

theorem subtitle_block_placement_witness:
  "lookup [bg] 0 = Inr bg \<and>
   load_fonts sized_pil 70 42 90 = (70, 42, 90) \<and>
   py_split newline (wrap_text (pil_textbbox sized_pil) (slide_subtitle sl) 42 (1920 - 150 * 2)) =
     [''Schedule your day in focused chunks''] \<and>
   (\<exists>r. rendered (add_text_overlay sized_pil [bg] 0 sl 1 ''landscape'') = Inr r \<and>
        drop 2 (strokes (im_raster r)) =
          [\<lparr>cmd_xy = (225, 600), cmd_text = ''Schedule your day in focused chunks'',
            cmd_font = 42, cmd_fill = ''white'', cmd_stroke_width = 2,
            cmd_stroke_fill = ''black''\<rparr>] \<and>
        470 + 80 \<le> snd (cmd_xy (hd (drop 2 (strokes (im_raster r))))))"
proof -
  have canvas: "lookup [bg] 0 = Inr bg"
    by (simp add: lookup_def)
  have dims: "im_size bg = (1920, 1080)"
    by (simp add: bg_def)
  have sizes: "(70, 42, 90, 80, 150) =
      (if ''landscape'' = ''portrait'' then (75, 45, 100, 60, 100) else (70, 42, 90, 80, 150 :: int))"
    by simp
  obtain r where run: "rendered (add_text_overlay sized_pil [bg] 0 sl 1 ''landscape'') = Inr r"
    using rendered_overlay [OF canvas] by blast
  have drawn: "drop 2 (strokes (im_raster r)) =
      drop (Suc (length (strokes (im_raster bg))) + length [''Time Blocking''])
        (strokes (im_raster r))"
    by (simp add: bg_def numeral_2_eq_2)
  have total: "80 = int (length [''Time Blocking'']) * (70 + 10)"
    by simp
  have start: "470 = 1080 div 2 - 80 div 2 - (30 :: int)"
    by simp
  note placed = subtitle_block_placement [OF run canvas dims sizes fonts_example
        title_lines_example [symmetric] subtitle_lines_example [symmetric] total start drawn]
  from placed have "drop 2 (strokes (im_raster r)) =
          [\<lparr>cmd_xy = (225, 600), cmd_text = ''Schedule your day in focused chunks'',
            cmd_font = 42, cmd_fill = ''white'', cmd_stroke_width = 2,
            cmd_stroke_fill = ''black''\<rparr>]"
    by (simp add: sized_pil_def mono_bbox_def bbox_width_def)
  moreover from this have "470 + 80 \<le> snd (cmd_xy (hd (drop 2 (strokes (im_raster r)))))"
    by simp
  ultimately show ?thesis
    using canvas run fonts_example subtitle_lines_example by blast
qed

text \<open>
  Claim C6.  The returned image is in mode RGB and of the size of the input canvas.  Its
  raster is the RGB conversion of: the input canvas converted to RGBA, composited with a
  layer of the canvas's size filled with \<open>(0, 0, 0, 100)\<close>, and then all the text
  commands of the call (at least three: number, title, subtitle) painted on top of that
  composite.
\<close>

theorem darkened_before_text:
  fixes pil :: "'f pil" and h :: "('p, 'f) heap"
  assumes run: "rendered (add_text_overlay pil h img slide_data slide_number format_type) = Inr r"
    and canvas: "lookup h img = Inr v"
    and drawn: "cmds = drop (length (strokes (im_raster v))) (strokes (im_raster r))"
  shows "im_mode r = ''RGB'' \<and> im_size r = im_size v \<and>
         im_raster r =
           Converted ''RGB''
             (foldl Stroked
                (Composited (Converted ''RGBA'' (im_raster v))
                   (Solid ''RGBA'' (im_size v) (0, 0, 0, 100)))
                cmds) \<and>
         3 \<le> length cmds"
proof -
  let ?cmds = "overlay_cmds pil (im_size v) slide_data slide_number format_type"
  have r: "r = \<lparr>im_mode = ''RGB'', im_size = im_size v,
                im_raster = Converted ''RGB'' (painted pil v slide_data slide_number format_type)\<rparr>"
    using run unfolding rendered_overlay [OF canvas] by simp
  have cmds: "cmds = ?cmds"
    unfolding drawn new_strokes [OF run canvas] by simp
  have "3 \<le> length ?cmds"
    by (rule overlay_cmds_length)
  with r cmds show ?thesis
    by (simp add: painted_def darkened_def)
qed

theorem darkened_before_text_witness:
  "lookup [bg] 0 = Inr bg \<and>
   (\<exists>r. rendered (add_text_overlay sized_pil [bg] 0 sl 1 ''landscape'') = Inr r \<and>
        im_mode r = ''RGB'' \<and> im_size r = (1920, 1080) \<and>
        im_raster r =
          Converted ''RGB''
            (foldl Stroked
               (Composited (Converted ''RGBA'' (Pixels ()))
                  (Solid ''RGBA'' (1920, 1080) (0, 0, 0, 100)))
               (strokes (im_raster r))) \<and>
        3 \<le> length (strokes (im_raster r)))"
proof -
  have canvas: "lookup [bg] 0 = Inr bg"
    by (simp add: lookup_def)
  obtain r where run: "rendered (add_text_overlay sized_pil [bg] 0 sl 1 ''landscape'') = Inr r"
    using rendered_overlay [OF canvas] by blast
  have drawn: "strokes (im_raster r) = drop (length (strokes (im_raster bg))) (strokes (im_raster r))"
    by (simp add: bg_def)
  from darkened_before_text [OF run canvas drawn]
  have "im_mode r = ''RGB'' \<and> im_size r = (1920, 1080) \<and>
        im_raster r =
          Converted ''RGB''
            (foldl Stroked
               (Composited (Converted ''RGBA'' (Pixels ()))
                  (Solid ''RGBA'' (1920, 1080) (0, 0, 0, 100)))
               (strokes (im_raster r))) \<and>
        3 \<le> length (strokes (im_raster r))"
    by (simp add: bg_def)
  with canvas run show ?thesis
    by blast
qed

text \<open>
  Claim C7.  The image a call returns is a function of the input canvas, the title and
  the subtitle of the slide, the slide number, the format key and the font side of the
  library, and of nothing else: two calls that agree on these return the same image,
  wherever the canvas lives in the store and whatever else the store and the slide hold.
\<close>

theorem overlay_deterministic:
  fixes pil :: "'f pil" and h1 h2 :: "('p, 'f) heap"
  assumes same_canvas: "lookup h1 img1 = lookup h2 img2"
    and same_title: "slide_title s1 = slide_title s2"
    and same_subtitle: "slide_subtitle s1 = slide_subtitle s2"
  shows "rendered (add_text_overlay pil h1 img1 s1 slide_number format_type) =
         rendered (add_text_overlay pil h2 img2 s2 slide_number format_type)"
proof (cases "lookup h1 img1")
  case (Inl e)
  with same_canvas have "lookup h2 img2 = Inl e" by simp
  with Inl show ?thesis
    by (simp add: rendered_no_image)
next
  case (Inr v)
  with same_canvas have "lookup h2 img2 = Inr v" by simp
  with Inr show ?thesis
    by (simp add: rendered_overlay painted_def
        overlay_cmds_cong [OF same_title same_subtitle])
qed

theorem overlay_deterministic_witness:
  "lookup [bg] 0 = lookup [bg \<lparr>im_mode := ''RGBA''\<rparr>, bg] 1 \<and>
   slide_visual_theme sl \<noteq> slide_visual_theme (sl \<lparr>slide_visual_theme := ''bold confident red''\<rparr>) \<and>
   rendered (add_text_overlay sized_pil [bg] 0 sl 1 ''landscape'') =
   rendered (add_text_overlay sized_pil [bg \<lparr>im_mode := ''RGBA''\<rparr>, bg] 1
               (sl \<lparr>slide_visual_theme := ''bold confident red''\<rparr>) 1 ''landscape'')"
proof -
  have same_canvas: "lookup [bg] 0 = lookup [bg \<lparr>im_mode := ''RGBA''\<rparr>, bg] 1"
    by (simp add: lookup_def)
  have same_title: "slide_title sl = slide_title (sl \<lparr>slide_visual_theme := ''bold confident red''\<rparr>)"
    by simp
  have same_subtitle:
    "slide_subtitle sl = slide_subtitle (sl \<lparr>slide_visual_theme := ''bold confident red''\<rparr>)"
    by simp
  have differ: "slide_visual_theme sl \<noteq>
      slide_visual_theme (sl \<lparr>slide_visual_theme := ''bold confident red''\<rparr>)"
    by (simp add: sl_def)
  from overlay_deterministic [OF same_canvas same_title same_subtitle] same_canvas differ
  show ?thesis
    by blast
qed



text \<open>
  Claim C10.  A call that returns leaves every image that was alive before it, the input
  canvas among them, exactly as it was: what it paints and returns are images made
  during the call.
\<close>

theorem input_canvas_unchanged:
  fixes pil :: "'f pil" and h :: "('p, 'f) heap"
  assumes "add_text_overlay pil h img slide_data slide_number format_type = Inr (out, h')"
  shows "lookup h' img = lookup h img \<and> take (length h) h' = h \<and>
         length h \<le> out \<and> out < length h'"
proof -
  have live: "img < length h"
  proof (rule ccontr)
    assume "\<not> img < length h"
    then have "add_text_overlay pil h img slide_data slide_number format_type = Inl NoSuchImage"
      by (rule add_text_overlay_no_image)
    with assms show False by simp
  qed
  from assms have "out = length h + 4"
    and "h' = h @ overlay_heap pil (h ! img) slide_data slide_number format_type"
    unfolding add_text_overlay_eq [OF live] by simp_all
  with live show ?thesis
    by (simp add: lookup_def nth_append overlay_heap_def)
qed

theorem input_canvas_unchanged_witness:
  "\<exists>out h'. add_text_overlay sized_pil [bg] 0 sl 1 ''landscape'' = Inr (out, h') \<and>
      lookup h' 0 = Inr bg \<and> take 1 h' = [bg] \<and> 1 \<le> out \<and> out < length h'"
proof -
  have live: "(0 :: nat) < length [bg]"
    by simp
  obtain out h' where run: "add_text_overlay sized_pil [bg] 0 sl 1 ''landscape'' = Inr (out, h')"
    using add_text_overlay_eq [OF live] by blast
  from input_canvas_unchanged [OF run]
  have "lookup h' 0 = Inr bg \<and> take 1 h' = [bg] \<and> 1 \<le> out \<and> out < length h'"
    by (simp add: lookup_def)
  with run show ?thesis
    by blast
qed

section \<open>The guard of \<open>generate_listicle_images\<close>\<close>

text \<open>
  Claim C9.  For a format key other than \<open>landscape\<close> and \<open>portrait\<close>,
  \<open>generate_listicle_images\<close> raises \<open>ValueError\<close> at once: whatever the collaborators
  are, nothing has been added to the store and no file has been written, so no content
  was asked for and no canvas was handed to \<open>add_text_overlay\<close>.
\<close>

theorem unknown_format_rejected:
  fixes pil :: "'f pil" and co :: "('p, 'f) collab"
  assumes "format_type \<noteq> ''landscape''" and "format_type \<noteq> ''portrait''"
  shows "generate_listicle_images pil co w topic format_type background_type num_slides =
           (Inl (ValueError format_error), w)"
  using assms by (simp add: generate_listicle_images_def FORMATS_def)

theorem unknown_format_rejected_witness:
  "''square'' \<noteq> ''landscape'' \<and> ''square'' \<noteq> ''portrait'' \<and>
   generate_listicle_images mono_pil no_collab w0 ''tips'' ''square'' ''color'' 1 =
     (Inl (ValueError ''Format must be one of: ['landscape', 'portrait']''), w0) \<and>
   fst (generate_listicle_images mono_pil no_collab w0 ''tips'' ''landscape'' ''color'' 1) =
     Inr [''slide.png'']"
proof -
  have a: "''square'' \<noteq> ''landscape''" and b: "''square'' \<noteq> ''portrait''"
    by simp_all
  have valid: "fst (generate_listicle_images mono_pil no_collab w0 ''tips'' ''landscape'' ''color'' 1) =
     Inr [''slide.png'']"
    by code_simp
  from unknown_format_rejected [OF a b, of mono_pil no_collab w0 "''tips''" "''color''" 1] a b valid
  show ?thesis
    by (simp add: format_error_def)
qed

end
